theory Spec2Isabelle
  imports Complex_Main
begin

section \<open>The traffic light detector node (tl\_detector.py)\<close>

text \<open>
  A shallow embedding of the class \<open>TLDetector\<close>. The node keeps its data in attributes
  of one object and is driven by four subscriber callbacks; the model is a record of the
  attributes and one function per method, each taking the object and returning what the
  method returns (and the object, where the method assigns to it).

  A Python exception is a value of the type \<open>error\<close>. rospy catches an exception
  that leaves a callback and keeps the node running, so a callback returns the object as
  the exception left it, beside the outcome.
\<close>

subsection \<open>Values\<close>

datatype error = AttributeError | IndexError | ValueError

text \<open>
  The value held in \<open>self.state\<close> is the integer ID of a colour, or the Python
  \<open>False\<close> that \<open>get_light_state\<close> returns in one branch. Python compares the two
  numerically (\<open>False == 0\<close>).
\<close>

datatype pyval = PyInt int | PyBool bool

fun py_int :: "pyval \<Rightarrow> int" where
  "py_int (PyInt i) = i"
| "py_int (PyBool b) = (if b then 1 else 0)"

definition py_eq :: "pyval \<Rightarrow> pyval \<Rightarrow> bool" where
  "py_eq a b = (py_int a = py_int b)"

definition py_ne :: "pyval \<Rightarrow> pyval \<Rightarrow> bool" where
  "py_ne a b = (py_int a \<noteq> py_int b)"

text \<open>
  Modelled from the spec: the colour constants of the message type
  \<open>styx_msgs/TrafficLight\<close>, whose definition is not among the sources. The spec names
  the four colours; the IDs are those of the message definition. No theorem below
  depends on the numbers beyond their being distinct.
\<close>

definition RED :: int where "RED = 0"
definition YELLOW :: int where "YELLOW = 1"
definition GREEN :: int where "GREEN = 2"
definition UNKNOWN :: int where "UNKNOWN = 4"

definition STATE_COUNT_THRESHOLD :: int where "STATE_COUNT_THRESHOLD = 3"
definition WAYPOINT_LOOKAHEAD :: int where "WAYPOINT_LOOKAHEAD = 100"
definition SAVE_IMAGE :: bool where "SAVE_IMAGE = False"
definition MOCK_TRAFFIC_LIGHTS :: bool where "MOCK_TRAFFIC_LIGHTS = False"

subsection \<open>Messages and the object\<close>

text \<open>
  Coordinates are only stored and handed to the k-d tree; no method computes with them.
  A message keeps the fields the node reads. \<open>config\<close> is the parsed
  \<open>/traffic_light_config\<close> parameter, kept as the one entry the node reads, a list of
  \<open>[x, y]\<close> pairs; a configuration without that entry is outside the model.
\<close>

type_synonym point = "real \<times> real"

record pose_msg =
  position_x :: real
  position_y :: real

record waypoint =
  wp_position_x :: real
  wp_position_y :: real

record traffic_light =
  light_x :: real
  light_y :: real
  light_state :: int

record config =
  stop_line_positions :: "point list"

text \<open>
  The collaborators the node calls and the sources do not contain: scipy's
  \<open>KDTree\<close> (its constructor and the index that \<open>query(p, 1)[1]\<close> returns),
  cv\_bridge's image conversion and the classifier. They are parameters of the model, so
  every theorem holds for whatever they compute.
\<close>

record ('t, 'img, 'cv) collaborators =
  KDTree :: "point list \<Rightarrow> error + 't"
  query :: "'t \<Rightarrow> point \<Rightarrow> int"
  imgmsg_to_cv2 :: "'img \<Rightarrow> 'cv"
  get_classification :: "'cv \<Rightarrow> int"

text \<open>
  The attributes. \<open>has_image\<close> and \<open>prev_light_loc\<close> are not assigned by
  \<open>__init__\<close>: the outer \<open>None\<close> is an attribute the object does not have yet,
  and reading it raises \<open>AttributeError\<close>. For the others \<open>None\<close> is Python's
  \<open>None\<close>. A ROS message object is truthy, so \<open>if self.pose\<close> and
  \<open>if closest_light\<close> ask whether the value is not \<open>None\<close>.
\<close>

record ('t, 'img) detector =
  pose :: "pose_msg option"
  waypoints :: "waypoint list option"
  camera_image :: "'img option"
  lights :: "traffic_light list"
  waypoints_2d :: "point list option"
  waypoint_tree :: "'t option"
  config :: config
  state :: pyval
  last_state :: pyval
  last_wp :: int
  state_count :: int
  image_counter :: int
  has_image :: "bool option"
  prev_light_loc :: "point option option"

definition init :: "config \<Rightarrow> ('t, 'img) detector" where
  "init cfg =
     \<lparr> pose = None, waypoints = None, camera_image = None, lights = [],
       waypoints_2d = None, waypoint_tree = None, config = cfg,
       state = PyInt RED, last_state = PyInt RED, last_wp = - 1, state_count = 0,
       image_counter = 0, has_image = None, prev_light_loc = None \<rparr>"

subsection \<open>The subscriber callbacks for pose, path and lights\<close>

definition pose_cb :: "('t, 'img) detector \<Rightarrow> pose_msg \<Rightarrow> ('t, 'img) detector" where
  "pose_cb s msg = s\<lparr>pose := Some msg\<rparr>"

definition traffic_cb :: "('t, 'img) detector \<Rightarrow> traffic_light list \<Rightarrow> ('t, 'img) detector" where
  "traffic_cb s msg_lights = s\<lparr>lights := msg_lights\<rparr>"

text \<open>
  \<open>not self.waypoints_2d\<close> holds for \<open>None\<close> and for the empty list. A path message
  is the list of its waypoints.
\<close>

definition falsy :: "'a list option \<Rightarrow> bool" where
  "falsy v = (case v of None \<Rightarrow> True | Some xs \<Rightarrow> xs = [])"

definition waypoints_cb ::
  "('t, 'img, 'cv) collaborators \<Rightarrow> ('t, 'img) detector \<Rightarrow> waypoint list
     \<Rightarrow> (error + unit) \<times> ('t, 'img) detector" where
  "waypoints_cb env s wps =
     (let s1 = s\<lparr>waypoints := Some wps\<rparr> in
      if falsy (waypoints_2d s1) then
        (let pts = map (\<lambda>w. (wp_position_x w, wp_position_y w)) wps;
             s2 = s1\<lparr>waypoints_2d := Some pts\<rparr> in
         case KDTree env pts of
           Inl e \<Rightarrow> (Inl e, s2)
         | Inr t \<Rightarrow> (Inr (), s2\<lparr>waypoint_tree := Some t\<rparr>))
      else (Inr (), s1))"

subsection \<open>Queries\<close>

definition get_closest_waypoint ::
  "('t, 'img, 'cv) collaborators \<Rightarrow> ('t, 'img) detector \<Rightarrow> real \<Rightarrow> real \<Rightarrow> error + int" where
  "get_closest_waypoint env s x y =
     (case waypoint_tree s of
        None \<Rightarrow> Inl AttributeError
      | Some t \<Rightarrow> Inr (query env t (x, y)))"

definition get_light_state ::
  "('t, 'img, 'cv) collaborators \<Rightarrow> ('t, 'img) detector \<Rightarrow> traffic_light
     \<Rightarrow> (error + pyval) \<times> ('t, 'img) detector" where
  "get_light_state env s light =
     (if MOCK_TRAFFIC_LIGHTS then (Inr (PyInt (light_state light)), s)
      else
        (case has_image s of
           None \<Rightarrow> (Inl AttributeError, s)
         | Some h \<Rightarrow>
             if \<not> h then (Inr (PyBool False), s\<lparr>prev_light_loc := Some None\<rparr>)
             else
               (case camera_image s of
                  None \<Rightarrow> (Inl AttributeError, s)
                | Some img \<Rightarrow>
                    (Inr (PyInt (get_classification env (imgmsg_to_cv2 env img))), s))))"

text \<open>
  The loop of \<open>get_closest_light_in_front\<close>, from light \<open>i\<close> on.
  \<open>closest_light\<close> and \<open>line_wp_idx\<close> are assigned together, so the model keeps
  them as one optional pair beside \<open>diff\<close>.
\<close>

fun lights_loop ::
  "('t, 'img, 'cv) collaborators \<Rightarrow> ('t, 'img) detector \<Rightarrow> int \<Rightarrow> point list \<Rightarrow> nat
     \<Rightarrow> traffic_light list \<Rightarrow> (traffic_light \<times> int) option \<times> int
     \<Rightarrow> error + ((traffic_light \<times> int) option \<times> int)" where
  "lights_loop env s car_position slp i [] acc = Inr acc"
| "lights_loop env s car_position slp i (light # rest) (closest, diff) =
     (if length slp \<le> i then Inl IndexError
      else
        (let line = slp ! i in
         case get_closest_waypoint env s (fst line) (snd line) of
           Inl e \<Rightarrow> Inl e
         | Inr temp_wp_idx \<Rightarrow>
             (let distance = temp_wp_idx - car_position in
              if 0 \<le> distance \<and> distance < diff
              then lights_loop env s car_position slp (Suc i) rest
                     (Some (light, temp_wp_idx), distance)
              else lights_loop env s car_position slp (Suc i) rest (closest, diff))))"

definition get_closest_light_in_front ::
  "('t, 'img, 'cv) collaborators \<Rightarrow> ('t, 'img) detector \<Rightarrow> int \<Rightarrow> point list
     \<Rightarrow> error + ((traffic_light \<times> int) option \<times> int)" where
  "get_closest_light_in_front env s car_position slp =
     (case waypoints s of
        None \<Rightarrow> Inl AttributeError
      | Some wps \<Rightarrow>
          lights_loop env s car_position slp 0 (lights s) (None, int (length wps)))"

text \<open>
  \<open>SAVE_IMAGE\<close> is \<open>False\<close>, so \<open>save_image\<close> is never called; it only writes a
  file and is left out.
\<close>

definition process_traffic_lights ::
  "('t, 'img, 'cv) collaborators \<Rightarrow> ('t, 'img) detector
     \<Rightarrow> (error + (int \<times> pyval)) \<times> ('t, 'img) detector" where
  "process_traffic_lights env s =
     (let slp = stop_line_positions (config s) in
      case pose s of
        None \<Rightarrow> (Inr (- 1, PyInt UNKNOWN), s)
      | Some p \<Rightarrow>
          (case get_closest_waypoint env s (position_x p) (position_y p) of
             Inl e \<Rightarrow> (Inl e, s)
           | Inr car_position \<Rightarrow>
               (case get_closest_light_in_front env s car_position slp of
                  Inl e \<Rightarrow> (Inl e, s)
                | Inr (None, distance) \<Rightarrow> (Inr (- 1, PyInt UNKNOWN), s)
                | Inr (Some (closest_light, line_wp_idx), distance) \<Rightarrow>
                    if distance < WAYPOINT_LOOKAHEAD then
                      (case get_light_state env s closest_light of
                         (Inl e, s') \<Rightarrow> (Inl e, s')
                       | (Inr st, s') \<Rightarrow> (Inr (line_wp_idx, st), s'))
                    else (Inr (- 1, PyInt UNKNOWN), s))))"

subsection \<open>The image callback\<close>

text \<open>
  Lines 102 to 112 of \<open>image_cb\<close>: the debouncing of the colour. The first component
  of the result is what the call publishes on \<open>/traffic_waypoint\<close>: the branch taken
  when the colour changes publishes nothing.
\<close>

definition debounce ::
  "('t, 'img) detector \<Rightarrow> int \<Rightarrow> pyval \<Rightarrow> int option \<times> ('t, 'img) detector" where
  "debounce s light_wp st =
     (let (published, s1) =
        (if py_ne (state s) st then
           (None, s\<lparr>state_count := 0, state := st\<rparr>)
         else if STATE_COUNT_THRESHOLD \<le> state_count s then
           (let wp = (if py_eq st (PyInt RED) then light_wp else - 1) in
            (Some wp, s\<lparr>last_state := state s, last_wp := wp\<rparr>))
         else (Some (last_wp s), s))
      in (published, s1\<lparr>state_count := state_count s1 + 1\<rparr>))"

definition image_cb ::
  "('t, 'img, 'cv) collaborators \<Rightarrow> ('t, 'img) detector \<Rightarrow> 'img
     \<Rightarrow> (error + int option) \<times> ('t, 'img) detector" where
  "image_cb env s msg =
     (let s1 = s\<lparr>has_image := Some True, camera_image := Some msg\<rparr> in
      case process_traffic_lights env s1 of
        (Inl e, s2) \<Rightarrow> (Inl e, s2)
      | (Inr (light_wp, st), s2) \<Rightarrow>
          (case debounce s2 light_wp st of (published, s3) \<Rightarrow> (Inr published, s3)))"

subsection \<open>Runs of the callbacks\<close>

text \<open>
  The debouncer over a sequence of frames, each given by the pair that
  \<open>process_traffic_lights\<close> returned for it; the result lists what each frame
  published.
\<close>

fun run_frames ::
  "('t, 'img) detector \<Rightarrow> (int \<times> pyval) list \<Rightarrow> int option list \<times> ('t, 'img) detector" where
  "run_frames s [] = ([], s)"
| "run_frames s ((light_wp, st) # frames) =
     (case debounce s light_wp st of
        (published, s1) \<Rightarrow>
          (case run_frames s1 frames of (ps, s2) \<Rightarrow> (published # ps, s2)))"

text \<open>A sequence of path deliveries, whether or not a delivery raises.\<close>

fun deliver_all ::
  "('t, 'img, 'cv) collaborators \<Rightarrow> ('t, 'img) detector \<Rightarrow> waypoint list list
     \<Rightarrow> ('t, 'img) detector" where
  "deliver_all env s [] = s"
| "deliver_all env s (wps # later) = deliver_all env (snd (waypoints_cb env s wps)) later"

subsection \<open>Reference collaborators\<close>

text \<open>
  Collaborators to run the model on concrete inputs: the tree is the list of points it
  was built from, its construction rejects an empty list as scipy's does, the query is a
  linear scan for the least squared distance (the first of equally near points), and an
  image is represented by the colour ID the classifier reads from it.
\<close>

definition dist2 :: "point \<Rightarrow> point \<Rightarrow> real" where
  "dist2 p q = (fst p - fst q) * (fst p - fst q) + (snd p - snd q) * (snd p - snd q)"

fun scan :: "point \<Rightarrow> point list \<Rightarrow> int \<Rightarrow> int \<Rightarrow> real \<Rightarrow> int" where
  "scan q [] i best best_d = best"
| "scan q (p # ps) i best best_d =
     (if dist2 p q < best_d then scan q ps (i + 1) i (dist2 p q)
      else scan q ps (i + 1) best best_d)"

definition linear_query :: "point list \<Rightarrow> point \<Rightarrow> int" where
  "linear_query ps q = (case ps of [] \<Rightarrow> 0 | p # rest \<Rightarrow> scan q rest 1 0 (dist2 p q))"

definition linear_env :: "(point list, int, int) collaborators" where
  "linear_env =
     \<lparr> KDTree = (\<lambda>ps. if ps = [] then Inl ValueError else Inr ps),
       query = linear_query,
       imgmsg_to_cv2 = (\<lambda>img. img),
       get_classification = (\<lambda>cv. cv) \<rparr>"

text \<open>A path of \<open>n\<close> waypoints one unit apart on the x axis, and a light.\<close>

definition line_path :: "nat \<Rightarrow> waypoint list" where
  "line_path n = map (\<lambda>k. \<lparr>wp_position_x = real k, wp_position_y = 0\<rparr>) [0..<n]"

definition light_at :: "real \<Rightarrow> traffic_light" where
  "light_at x = \<lparr>light_x = x, light_y = 0, light_state = RED\<rparr>"

definition stop_lines :: "real list \<Rightarrow> config" where
  "stop_lines xs = \<lparr>stop_line_positions = map (\<lambda>x. (x, 0)) xs\<rparr>"

definition fresh :: "real list \<Rightarrow> (point list, int) detector" where
  "fresh xs = init (stop_lines xs)"

subsection \<open>The distance of a light and some concrete scenes\<close>

text \<open>
  The value that \<open>get_closest_light_in_front\<close> computes as \<open>distance\<close> for light
  \<open>i\<close>: the index nearest to its stop line, less the car's index.
\<close>

definition distance_of ::
  "('t, 'img, 'cv) collaborators \<Rightarrow> 't \<Rightarrow> int \<Rightarrow> point list \<Rightarrow> nat \<Rightarrow> int" where
  "distance_of env t car_position slp i = query env t (slp ! i) - car_position"

text \<open>
  Scenes reached through the callbacks, on the reference collaborators. \<open>junction\<close>:
  a path of five waypoints and four lights whose stop lines are nearest to waypoints 4,
  0, 2 and 2. \<open>shortened\<close>: the path delivered a second time with two waypoints only.
  \<open>behind\<close>: two lights whose stop lines are at waypoints 1 and 0. \<open>approach\<close>:
  \<open>junction\<close> with the car at waypoint 1, as \<open>image_cb\<close> hands it to
  \<open>process_traffic_lights\<close> for an image showing GREEN.
\<close>

definition junction :: "(point list, int) detector" where
  "junction =
     traffic_cb (deliver_all linear_env (fresh [4, 0, 2, 2]) [line_path 5])
       [light_at 14, light_at 10, light_at 12, light_at 13]"

definition shortened :: "(point list, int) detector" where
  "shortened =
     traffic_cb (deliver_all linear_env (fresh [3]) [line_path 5, line_path 2]) [light_at 13]"

definition behind :: "(point list, int) detector" where
  "behind =
     traffic_cb (deliver_all linear_env (fresh [1, 0]) [line_path 5]) [light_at 11, light_at 10]"

definition approach :: "(point list, int) detector" where
  "approach =
     (pose_cb junction \<lparr>position_x = 1, position_y = 0\<rparr>)
       \<lparr>has_image := Some True, camera_image := Some GREEN\<rparr>"

section \<open>The debouncer\<close>

lemma py_ne_refl: "\<not> py_ne c c"
  by (simp add: py_ne_def)

lemma py_eq_of_not_ne: "\<not> py_ne a b \<Longrightarrow> py_eq b c = py_eq a c"
  by (simp add: py_ne_def py_eq_def)

lemma debounce_change:
  "py_ne (state s) st \<Longrightarrow>
     debounce s light_wp st = (None, s\<lparr>state_count := 1, state := st\<rparr>)"
  by (simp add: debounce_def)

lemma debounce_commit:
  "\<not> py_ne (state s) st \<Longrightarrow> STATE_COUNT_THRESHOLD \<le> state_count s \<Longrightarrow>
     debounce s light_wp st =
       (Some (if py_eq st (PyInt RED) then light_wp else - 1),
        s\<lparr>last_state := state s,
          last_wp := (if py_eq st (PyInt RED) then light_wp else - 1),
          state_count := state_count s + 1\<rparr>)"
  by (simp add: debounce_def Let_def)

lemma debounce_hold:
  "\<not> py_ne (state s) st \<Longrightarrow> state_count s < STATE_COUNT_THRESHOLD \<Longrightarrow>
     debounce s light_wp st = (Some (last_wp s), s\<lparr>state_count := state_count s + 1\<rparr>)"
  by (simp add: debounce_def)

text \<open>
  Claim C1, as the code has it. A run of one colour \<open>c\<close> that starts where the colour
  differs from \<open>self.state\<close>, or where the count is 0 (the state after \<open>__init__\<close>),
  leaves the published output alone for its first three frames: a frame that changes the
  colour publishes nothing, the others publish \<open>last_wp\<close> again, and \<open>last_wp\<close> is
  unchanged. The count is then \<open>STATE_COUNT_THRESHOLD\<close>, and the fourth frame of the
  colour is the first to take the commit branch: it publishes its stop index if the
  colour is RED and \<open>-1\<close> otherwise, and stores that in \<open>last_wp\<close>. After any frame
  the count is one more than it was, or 1 when the colour differed (reset to 0, then
  incremented).
\<close>

theorem debounce_commits_on_fourth_frame:
  assumes "py_ne (state s) c \<or> state_count s = 0"
  shows "fst (run_frames s [(w1, c), (w2, c), (w3, c), (w4, c)]) =
           [if py_ne (state s) c then None else Some (last_wp s),
            Some (last_wp s), Some (last_wp s),
            Some (if py_eq c (PyInt RED) then w4 else - 1)]
       \<and> last_wp (snd (run_frames s [(w1, c), (w2, c), (w3, c)])) = last_wp s
       \<and> state_count (snd (run_frames s [(w1, c), (w2, c), (w3, c)])) = STATE_COUNT_THRESHOLD
       \<and> last_wp (snd (run_frames s [(w1, c), (w2, c), (w3, c), (w4, c)])) =
           (if py_eq c (PyInt RED) then w4 else - 1)
       \<and> state_count (snd (debounce s' w st)) =
           (if py_ne (state s') st then 0 else state_count s') + 1"
proof -
  have cnt: "state_count (snd (debounce s' w st)) =
           (if py_ne (state s') st then 0 else state_count s') + 1"
    by (simp add: debounce_def Let_def)
  show ?thesis
  proof (cases "py_ne (state s) c")
    case True
    then show ?thesis
      using cnt
      by (simp add: debounce_change debounce_hold debounce_commit py_ne_refl
            STATE_COUNT_THRESHOLD_def)
  next
    case False
    with assms have z: "state_count s = 0" by simp
    from False z show ?thesis
      using cnt
      by (simp add: debounce_hold debounce_commit STATE_COUNT_THRESHOLD_def)
  qed
qed

theorem debounce_commits_on_fourth_frame_witness:
  "(py_ne (state (fresh [7] \<lparr>last_wp := 5, state_count := 9\<rparr>)) (PyInt GREEN)
      \<or> state_count (fresh [7] \<lparr>last_wp := 5, state_count := 9\<rparr>) = 0)
   \<and> fst (run_frames (fresh [7] \<lparr>last_wp := 5, state_count := 9\<rparr>)
        [(7, PyInt GREEN), (7, PyInt GREEN), (7, PyInt GREEN), (7, PyInt GREEN)])
       = [None, Some 5, Some 5, Some (- 1)]
   \<and> (py_ne (state (fresh [7])) (PyInt RED) \<or> state_count (fresh [7]) = 0)
   \<and> fst (run_frames (fresh [7])
        [(7, PyInt RED), (7, PyInt RED), (7, PyInt RED), (7, PyInt RED)])
       = [Some (- 1), Some (- 1), Some (- 1), Some 7]"
proof -
  have g: "py_ne (state (fresh [7] \<lparr>last_wp := 5, state_count := 9\<rparr>)) (PyInt GREEN)
      \<or> state_count (fresh [7] \<lparr>last_wp := 5, state_count := 9\<rparr>) = 0"
    by (simp add: fresh_def init_def py_ne_def RED_def GREEN_def)
  have r: "py_ne (state (fresh [7])) (PyInt RED) \<or> state_count (fresh [7]) = 0"
    by (simp add: fresh_def init_def)
  show ?thesis
    using debounce_commits_on_fourth_frame
            [of "fresh [7] \<lparr>last_wp := 5, state_count := 9\<rparr>" "PyInt GREEN" 7 7 7 7
               "fresh [7]" 7 "PyInt RED", OF g]
          debounce_commits_on_fourth_frame
            [of "fresh [7]" "PyInt RED" 7 7 7 7 "fresh [7]" 7 "PyInt RED", OF r]
    by (simp add: fresh_def init_def debounce_def py_ne_def py_eq_def RED_def GREEN_def
          STATE_COUNT_THRESHOLD_def)
qed

text \<open>
  The third frame of a colour does not commit. From the initial state three RED frames
  for stop index 7 publish \<open>-1\<close> three times; after a committed RED stop at index 5,
  three GREEN frames publish nothing and then 5 twice, and leave \<open>last_wp\<close> at 5.
\<close>

theorem debounce_third_frame_counterexample:
  "fst (run_frames (fresh [7]) [(7, PyInt RED), (7, PyInt RED), (7, PyInt RED)])
     = [Some (- 1), Some (- 1), Some (- 1)]
   \<and> last_wp (snd (run_frames (fresh [7]) [(7, PyInt RED), (7, PyInt RED), (7, PyInt RED)])) = - 1
   \<and> fst (run_frames (fresh [7] \<lparr>last_wp := 5, state_count := 9\<rparr>)
        [(7, PyInt GREEN), (7, PyInt GREEN), (7, PyInt GREEN)]) = [None, Some 5, Some 5]
   \<and> last_wp (snd (run_frames (fresh [7] \<lparr>last_wp := 5, state_count := 9\<rparr>)
        [(7, PyInt GREEN), (7, PyInt GREEN), (7, PyInt GREEN)])) = 5"
  by (simp add: fresh_def init_def debounce_def py_ne_def py_eq_def RED_def GREEN_def
        STATE_COUNT_THRESHOLD_def)

text \<open>
  Claim C7. On a commit step (the observed colour equals \<open>self.state\<close> and the count
  has reached the threshold) the published value is the frame's stop index when the
  state is RED and \<open>-1\<close> otherwise; it is stored in \<open>last_wp\<close>, and \<open>last_state\<close>
  becomes the state.
\<close>

theorem debounce_commit_publishes:
  assumes "\<not> py_ne (state s) st" and "STATE_COUNT_THRESHOLD \<le> state_count s"
  shows "fst (debounce s light_wp st) = Some (if py_eq (state s) (PyInt RED) then light_wp else - 1)
       \<and> last_wp (snd (debounce s light_wp st)) =
           (if py_eq (state s) (PyInt RED) then light_wp else - 1)
       \<and> last_state (snd (debounce s light_wp st)) = state s"
  using assms by (simp add: debounce_commit py_eq_of_not_ne)

theorem debounce_commit_publishes_witness:
  "\<not> py_ne (state (fresh [7] \<lparr>state_count := 3\<rparr>)) (PyInt RED)
   \<and> STATE_COUNT_THRESHOLD \<le> state_count (fresh [7] \<lparr>state_count := 3\<rparr>)
   \<and> fst (debounce (fresh [7] \<lparr>state_count := 3\<rparr>) 7 (PyInt RED)) = Some 7
   \<and> last_wp (snd (debounce (fresh [7] \<lparr>state_count := 3\<rparr>) 7 (PyInt RED))) = 7
   \<and> \<not> py_ne (state (fresh [7] \<lparr>state := PyInt GREEN, state_count := 3\<rparr>)) (PyInt GREEN)
   \<and> fst (debounce (fresh [7] \<lparr>state := PyInt GREEN, state_count := 3\<rparr>) 7 (PyInt GREEN))
       = Some (- 1)
   \<and> last_wp (snd (debounce (fresh [7] \<lparr>state := PyInt GREEN, state_count := 3\<rparr>) 7
       (PyInt GREEN))) = - 1"
proof -
  have a: "\<not> py_ne (state (fresh [7] \<lparr>state_count := 3\<rparr>)) (PyInt RED)"
    by (simp add: fresh_def init_def py_ne_def)
  have b: "STATE_COUNT_THRESHOLD \<le> state_count (fresh [7] \<lparr>state_count := 3\<rparr>)"
    by (simp add: STATE_COUNT_THRESHOLD_def)
  have c: "\<not> py_ne (state (fresh [7] \<lparr>state := PyInt GREEN, state_count := 3\<rparr>)) (PyInt GREEN)"
    by (simp add: py_ne_def)
  have d: "STATE_COUNT_THRESHOLD
             \<le> state_count (fresh [7] \<lparr>state := PyInt GREEN, state_count := 3\<rparr>)"
    by (simp add: STATE_COUNT_THRESHOLD_def)
  show ?thesis
    using debounce_commit_publishes [OF a b, of 7] debounce_commit_publishes [OF c d, of 7]
    by (simp add: fresh_def init_def debounce_def py_ne_def py_eq_def RED_def GREEN_def
          STATE_COUNT_THRESHOLD_def)
qed

text \<open>
  Claim C9. From a state whose count has reached the threshold, every frame of a run
  that keeps the colour takes the commit branch: each publishes the value computed from
  its own stop index, and after the run the colour is still the state and the count is
  still at or above the threshold, so the branch that republishes \<open>last_wp\<close> is not
  taken before the colour differs.
\<close>

theorem debounce_recommits_while_colour_holds:
  assumes "\<not> py_ne (state s) c" and "STATE_COUNT_THRESHOLD \<le> state_count s"
    and "\<forall>f \<in> set frames. snd f = c"
  shows "fst (run_frames s frames) =
           map (\<lambda>f. Some (if py_eq c (PyInt RED) then fst f else - 1)) frames
       \<and> \<not> py_ne (state (snd (run_frames s frames))) c
       \<and> STATE_COUNT_THRESHOLD \<le> state_count (snd (run_frames s frames))"
  using assms
proof (induction frames arbitrary: s)
  case Nil
  then show ?case by simp
next
  case (Cons f frames)
  obtain w where f: "f = (w, c)" using Cons.prems(3) by (cases f) simp
  let ?s1 = "s\<lparr>last_state := state s,
                last_wp := (if py_eq c (PyInt RED) then w else - 1),
                state_count := state_count s + 1\<rparr>"
  have step: "debounce s w c = (Some (if py_eq c (PyInt RED) then w else - 1), ?s1)"
    using Cons.prems(1,2) by (rule debounce_commit)
  have "\<not> py_ne (state ?s1) c" "STATE_COUNT_THRESHOLD \<le> state_count ?s1"
    "\<forall>f \<in> set frames. snd f = c"
    using Cons.prems by simp_all
  from Cons.IH [OF this] show ?case
    by (simp add: f step split_beta)
qed

theorem debounce_recommits_while_colour_holds_witness:
  "\<not> py_ne (state (fresh [7] \<lparr>state_count := 3\<rparr>)) (PyInt RED)
   \<and> STATE_COUNT_THRESHOLD \<le> state_count (fresh [7] \<lparr>state_count := 3\<rparr>)
   \<and> fst (run_frames (fresh [7] \<lparr>state_count := 3\<rparr>)
        [(7, PyInt RED), (8, PyInt RED), (6, PyInt RED)]) = [Some 7, Some 8, Some 6]"
proof -
  have a: "\<not> py_ne (state (fresh [7] \<lparr>state_count := 3\<rparr>)) (PyInt RED)"
    by (simp add: fresh_def init_def py_ne_def)
  have b: "STATE_COUNT_THRESHOLD \<le> state_count (fresh [7] \<lparr>state_count := 3\<rparr>)"
    by (simp add: STATE_COUNT_THRESHOLD_def)
  have c: "\<forall>f \<in> set [(7, PyInt RED), (8, PyInt RED), (6::int, PyInt RED)]. snd f = PyInt RED"
    by simp
  show ?thesis
    using debounce_recommits_while_colour_holds [OF a b c]
    by (simp add: fresh_def init_def debounce_def py_ne_def py_eq_def RED_def
          STATE_COUNT_THRESHOLD_def)
qed

section \<open>The selection of the light ahead\<close>

lemma lights_loop_step:
  assumes "waypoint_tree s = Some t" and "i < length slp"
  shows "lights_loop env s car slp i (l # rest) (sel, D) =
           (if 0 \<le> query env t (slp ! i) - car \<and> query env t (slp ! i) - car < D
            then lights_loop env s car slp (Suc i) rest
                   (Some (l, query env t (slp ! i)), query env t (slp ! i) - car)
            else lights_loop env s car slp (Suc i) rest (sel, D))"
  using assms by (simp add: get_closest_waypoint_def Let_def)

text \<open>
  What the loop returns from light \<open>i\<close> on, started with \<open>(sel, D)\<close>: either no
  remaining light is at a distance in \<open>[0, D)\<close> and the accumulator is returned as it
  is, or the result is the first of the remaining lights at the least distance in
  \<open>[0, D)\<close>.
\<close>

lemma lights_loop_char:
  assumes tr: "waypoint_tree s = Some t"
  shows "i + length ls \<le> length slp \<Longrightarrow>
    \<exists>sel' D'. lights_loop env s car slp i ls (sel, D) = Inr (sel', D') \<and>
      ((sel' = sel \<and> D' = D \<and>
          (\<forall>j. i \<le> j \<and> j < i + length ls \<longrightarrow>
               \<not> (0 \<le> query env t (slp ! j) - car \<and> query env t (slp ! j) - car < D)))
       \<or> (\<exists>j. i \<le> j \<and> j < i + length ls \<and>
             sel' = Some (ls ! (j - i), query env t (slp ! j)) \<and>
             D' = query env t (slp ! j) - car \<and> 0 \<le> D' \<and> D' < D \<and>
             (\<forall>k. i \<le> k \<and> k < i + length ls \<longrightarrow> 0 \<le> query env t (slp ! k) - car
                  \<longrightarrow> D' \<le> query env t (slp ! k) - car) \<and>
             (\<forall>k. i \<le> k \<and> k < j \<longrightarrow> 0 \<le> query env t (slp ! k) - car
                  \<longrightarrow> D' < query env t (slp ! k) - car)))"
proof (induction ls arbitrary: i sel D)
  case Nil
  then show ?case by simp
next
  case (Cons l rest)
  let ?d = "\<lambda>j. query env t (slp ! j) - car"
  from Cons.prems have i: "i < length slp" and rest: "Suc i + length rest \<le> length slp"
    by simp_all
  have split: "\<And>k. i \<le> k \<and> k < i + length (l # rest) \<Longrightarrow> k \<noteq> i
                 \<Longrightarrow> Suc i \<le> k \<and> k < Suc i + length rest"
    by simp
  show ?case
  proof (cases "0 \<le> ?d i \<and> ?d i < D")
    case True
    from Cons.IH [OF rest, of "Some (l, query env t (slp ! i))" "?d i"]
    obtain sel' D' where
      run: "lights_loop env s car slp (Suc i) rest (Some (l, query env t (slp ! i)), ?d i)
              = Inr (sel', D')"
      and alt: "(sel' = Some (l, query env t (slp ! i)) \<and> D' = ?d i \<and>
          (\<forall>j. Suc i \<le> j \<and> j < Suc i + length rest \<longrightarrow> \<not> (0 \<le> ?d j \<and> ?d j < ?d i)))
       \<or> (\<exists>j. Suc i \<le> j \<and> j < Suc i + length rest \<and>
             sel' = Some (rest ! (j - Suc i), query env t (slp ! j)) \<and>
             D' = ?d j \<and> 0 \<le> D' \<and> D' < ?d i \<and>
             (\<forall>k. Suc i \<le> k \<and> k < Suc i + length rest \<longrightarrow> 0 \<le> ?d k \<longrightarrow> D' \<le> ?d k) \<and>
             (\<forall>k. Suc i \<le> k \<and> k < j \<longrightarrow> 0 \<le> ?d k \<longrightarrow> D' < ?d k))"
      by blast
    have eq: "lights_loop env s car slp i (l # rest) (sel, D) = Inr (sel', D')"
      using True run by (simp add: lights_loop_step [OF tr i] del: lights_loop.simps)
    from alt show ?thesis
    proof
      assume a: "sel' = Some (l, query env t (slp ! i)) \<and> D' = ?d i \<and>
          (\<forall>j. Suc i \<le> j \<and> j < Suc i + length rest \<longrightarrow> \<not> (0 \<le> ?d j \<and> ?d j < ?d i))"
      have "\<forall>k. i \<le> k \<and> k < i + length (l # rest) \<longrightarrow> 0 \<le> ?d k \<longrightarrow> ?d i \<le> ?d k"
      proof (intro allI impI)
        fix k assume k: "i \<le> k \<and> k < i + length (l # rest)" and nn: "0 \<le> ?d k"
        show "?d i \<le> ?d k"
        proof (cases "k = i")
          case True then show ?thesis by simp
        next
          case False
          from split [OF k False] a nn show ?thesis by (meson not_le_imp_less)
        qed
      qed
      with a True eq show ?thesis
        by (intro exI [of _ sel'] exI [of _ D'] conjI disjI2 exI [of _ i]) auto
    next
      assume "\<exists>j. Suc i \<le> j \<and> j < Suc i + length rest \<and>
             sel' = Some (rest ! (j - Suc i), query env t (slp ! j)) \<and>
             D' = ?d j \<and> 0 \<le> D' \<and> D' < ?d i \<and>
             (\<forall>k. Suc i \<le> k \<and> k < Suc i + length rest \<longrightarrow> 0 \<le> ?d k \<longrightarrow> D' \<le> ?d k) \<and>
             (\<forall>k. Suc i \<le> k \<and> k < j \<longrightarrow> 0 \<le> ?d k \<longrightarrow> D' < ?d k)"
      then obtain j where j: "Suc i \<le> j" "j < Suc i + length rest"
        and s': "sel' = Some (rest ! (j - Suc i), query env t (slp ! j))"
        and D': "D' = ?d j" "0 \<le> D'" "D' < ?d i"
        and mn: "\<forall>k. Suc i \<le> k \<and> k < Suc i + length rest \<longrightarrow> 0 \<le> ?d k \<longrightarrow> D' \<le> ?d k"
        and fs: "\<forall>k. Suc i \<le> k \<and> k < j \<longrightarrow> 0 \<le> ?d k \<longrightarrow> D' < ?d k"
        by blast
      have nth: "(l # rest) ! (j - i) = rest ! (j - Suc i)"
        using j by (simp add: nth_Cons')
      have mn': "\<forall>k. i \<le> k \<and> k < i + length (l # rest) \<longrightarrow> 0 \<le> ?d k \<longrightarrow> D' \<le> ?d k"
      proof (intro allI impI)
        fix k assume k: "i \<le> k \<and> k < i + length (l # rest)" and nn: "0 \<le> ?d k"
        show "D' \<le> ?d k"
        proof (cases "k = i")
          case True with D' show ?thesis by simp
        next
          case False
          from split [OF k False] mn nn show ?thesis by blast
        qed
      qed
      have fs': "\<forall>k. i \<le> k \<and> k < j \<longrightarrow> 0 \<le> ?d k \<longrightarrow> D' < ?d k"
      proof (intro allI impI)
        fix k assume k: "i \<le> k \<and> k < j" and nn: "0 \<le> ?d k"
        show "D' < ?d k"
        proof (cases "k = i")
          case True with D' show ?thesis by simp
        next
          case False
          with k have "Suc i \<le> k \<and> k < j" by simp
          with fs nn show ?thesis by blast
        qed
      qed
      have "D' < D" using D' True by simp
      with eq j s' D' nth mn' fs' show ?thesis
        by (intro exI [of _ sel'] exI [of _ D'] conjI disjI2 exI [of _ j]) auto
    qed
  next
    case False
    from Cons.IH [OF rest, of sel D]
    obtain sel' D' where
      run: "lights_loop env s car slp (Suc i) rest (sel, D) = Inr (sel', D')"
      and alt: "(sel' = sel \<and> D' = D \<and>
          (\<forall>j. Suc i \<le> j \<and> j < Suc i + length rest \<longrightarrow> \<not> (0 \<le> ?d j \<and> ?d j < D)))
       \<or> (\<exists>j. Suc i \<le> j \<and> j < Suc i + length rest \<and>
             sel' = Some (rest ! (j - Suc i), query env t (slp ! j)) \<and>
             D' = ?d j \<and> 0 \<le> D' \<and> D' < D \<and>
             (\<forall>k. Suc i \<le> k \<and> k < Suc i + length rest \<longrightarrow> 0 \<le> ?d k \<longrightarrow> D' \<le> ?d k) \<and>
             (\<forall>k. Suc i \<le> k \<and> k < j \<longrightarrow> 0 \<le> ?d k \<longrightarrow> D' < ?d k))"
      by blast
    have eq: "lights_loop env s car slp i (l # rest) (sel, D) = Inr (sel', D')"
      using False run
      by (auto simp add: lights_loop_step [OF tr i] simp del: lights_loop.simps)
    from alt show ?thesis
    proof
      assume a: "sel' = sel \<and> D' = D \<and>
          (\<forall>j. Suc i \<le> j \<and> j < Suc i + length rest \<longrightarrow> \<not> (0 \<le> ?d j \<and> ?d j < D))"
      have "\<forall>j. i \<le> j \<and> j < i + length (l # rest) \<longrightarrow> \<not> (0 \<le> ?d j \<and> ?d j < D)"
      proof (intro allI impI)
        fix j assume j: "i \<le> j \<and> j < i + length (l # rest)"
        show "\<not> (0 \<le> ?d j \<and> ?d j < D)"
        proof (cases "j = i")
          case True with False show ?thesis by simp
        next
          case F: False
          from split [OF j F] a show ?thesis by blast
        qed
      qed
      with a eq show ?thesis by blast
    next
      assume "\<exists>j. Suc i \<le> j \<and> j < Suc i + length rest \<and>
             sel' = Some (rest ! (j - Suc i), query env t (slp ! j)) \<and>
             D' = ?d j \<and> 0 \<le> D' \<and> D' < D \<and>
             (\<forall>k. Suc i \<le> k \<and> k < Suc i + length rest \<longrightarrow> 0 \<le> ?d k \<longrightarrow> D' \<le> ?d k) \<and>
             (\<forall>k. Suc i \<le> k \<and> k < j \<longrightarrow> 0 \<le> ?d k \<longrightarrow> D' < ?d k)"
      then obtain j where j: "Suc i \<le> j" "j < Suc i + length rest"
        and s': "sel' = Some (rest ! (j - Suc i), query env t (slp ! j))"
        and D': "D' = ?d j" "0 \<le> D'" "D' < D"
        and mn: "\<forall>k. Suc i \<le> k \<and> k < Suc i + length rest \<longrightarrow> 0 \<le> ?d k \<longrightarrow> D' \<le> ?d k"
        and fs: "\<forall>k. Suc i \<le> k \<and> k < j \<longrightarrow> 0 \<le> ?d k \<longrightarrow> D' < ?d k"
        by blast
      have nth: "(l # rest) ! (j - i) = rest ! (j - Suc i)"
        using j by (simp add: nth_Cons')
      have hd: "0 \<le> ?d i \<Longrightarrow> D' < ?d i" using False D' by simp
      have mn': "\<forall>k. i \<le> k \<and> k < i + length (l # rest) \<longrightarrow> 0 \<le> ?d k \<longrightarrow> D' \<le> ?d k"
      proof (intro allI impI)
        fix k assume k: "i \<le> k \<and> k < i + length (l # rest)" and nn: "0 \<le> ?d k"
        show "D' \<le> ?d k"
        proof (cases "k = i")
          case True with hd nn show ?thesis by simp
        next
          case False
          from split [OF k False] mn nn show ?thesis by blast
        qed
      qed
      have fs': "\<forall>k. i \<le> k \<and> k < j \<longrightarrow> 0 \<le> ?d k \<longrightarrow> D' < ?d k"
      proof (intro allI impI)
        fix k assume k: "i \<le> k \<and> k < j" and nn: "0 \<le> ?d k"
        show "D' < ?d k"
        proof (cases "k = i")
          case True with hd nn show ?thesis by simp
        next
          case False
          with k have "Suc i \<le> k \<and> k < j" by simp
          with fs nn show ?thesis by blast
        qed
      qed
      from eq j s' D' nth mn' fs' show ?thesis
        by (intro exI [of _ sel'] exI [of _ D'] conjI disjI2 exI [of _ j]) auto
    qed
  qed
qed

lemma lights_loop_from_start:
  assumes tr: "waypoint_tree s = Some t" and len: "length ls \<le> length slp"
  shows "(lights_loop env s car slp 0 ls (None, N) = Inr (None, N) \<and>
           (\<forall>j<length ls. \<not> (0 \<le> distance_of env t car slp j \<and> distance_of env t car slp j < N)))
       \<or> (\<exists>j<length ls.
             lights_loop env s car slp 0 ls (None, N) =
               Inr (Some (ls ! j, query env t (slp ! j)), distance_of env t car slp j) \<and>
             0 \<le> distance_of env t car slp j \<and> distance_of env t car slp j < N \<and>
             (\<forall>k<length ls. 0 \<le> distance_of env t car slp k
                  \<longrightarrow> distance_of env t car slp j \<le> distance_of env t car slp k) \<and>
             (\<forall>k<j. 0 \<le> distance_of env t car slp k
                  \<longrightarrow> distance_of env t car slp j < distance_of env t car slp k))"
proof -
  have len0: "0 + length ls \<le> length slp" using len by simp
  show ?thesis
    using lights_loop_char [OF tr len0, of env car None N]
    unfolding distance_of_def
    apply (elim exE conjE disjE)
     apply (rule disjI1)
     apply simp
    apply (rule disjI2)
    apply (rule_tac x = j in exI)
    apply simp
    done
qed


text \<open>
  What the selection returns, with the path stored, the index built and a stop line for
  every light. \<open>diff\<close> starts at the number of stored waypoints, so a light is taken
  only at a distance \<open>d\<close> with \<open>0 \<le> d < len(waypoints)\<close>: if no light is at
  such a distance the result is no light, and otherwise it is a light \<open>i\<close> with its
  stop index and its distance, no light at a distance \<open>\<ge> 0\<close> is nearer, and every
  earlier light at a distance \<open>\<ge> 0\<close> is strictly farther (the first seen wins a tie).
\<close>

lemma get_closest_light_in_front_nearest_ahead:
  assumes "waypoints s = Some wps" and "waypoint_tree s = Some t"
    and "length (lights s) \<le> length slp"
  shows "(get_closest_light_in_front env s car slp = Inr (None, int (length wps)) \<and>
           (\<forall>i<length (lights s).
              \<not> (0 \<le> distance_of env t car slp i
                 \<and> distance_of env t car slp i < int (length wps))))
       \<or> (\<exists>i<length (lights s).
             get_closest_light_in_front env s car slp =
               Inr (Some (lights s ! i, query env t (slp ! i)), distance_of env t car slp i) \<and>
             0 \<le> distance_of env t car slp i \<and>
             distance_of env t car slp i < int (length wps) \<and>
             (\<forall>j<length (lights s). 0 \<le> distance_of env t car slp j
                  \<longrightarrow> distance_of env t car slp i \<le> distance_of env t car slp j) \<and>
             (\<forall>j<i. 0 \<le> distance_of env t car slp j
                  \<longrightarrow> distance_of env t car slp i < distance_of env t car slp j))"
proof -
  have "get_closest_light_in_front env s car slp =
          lights_loop env s car slp 0 (lights s) (None, int (length wps))"
    using assms(1) by (simp add: get_closest_light_in_front_def)
  then show ?thesis
    using lights_loop_from_start [OF assms(2,3), of env car "int (length wps)"]
    by (simp only:)
qed

text \<open>
  Where every distance is below the number of stored waypoints, as it is when the index
  was built from the stored path and the car's index is not negative, the bound plays no
  part: no light is selected only if every light is behind the car, and a selected light
  is the first at the least distance \<open>\<ge> 0\<close>.
\<close>

lemma get_closest_light_in_front_nearest_when_consistent:
  assumes "waypoints s = Some wps" and "waypoint_tree s = Some t"
    and "length (lights s) \<le> length slp"
    and "\<forall>i<length (lights s). distance_of env t car slp i < int (length wps)"
  shows "(get_closest_light_in_front env s car slp = Inr (None, int (length wps)) \<and>
           (\<forall>i<length (lights s). distance_of env t car slp i < 0))
       \<or> (\<exists>i<length (lights s).
             get_closest_light_in_front env s car slp =
               Inr (Some (lights s ! i, query env t (slp ! i)), distance_of env t car slp i) \<and>
             0 \<le> distance_of env t car slp i \<and>
             (\<forall>j<length (lights s). 0 \<le> distance_of env t car slp j
                  \<longrightarrow> distance_of env t car slp i \<le> distance_of env t car slp j) \<and>
             (\<forall>j<i. 0 \<le> distance_of env t car slp j
                  \<longrightarrow> distance_of env t car slp i < distance_of env t car slp j))"
  using get_closest_light_in_front_nearest_ahead [OF assms(1,2,3), of env car]
proof (elim disjE exE conjE)
  assume r: "get_closest_light_in_front env s car slp = Inr (None, int (length wps))"
    and n: "\<forall>i<length (lights s).
              \<not> (0 \<le> distance_of env t car slp i
                 \<and> distance_of env t car slp i < int (length wps))"
  have "\<forall>i<length (lights s). distance_of env t car slp i < 0"
  proof (intro allI impI)
    fix i assume i: "i < length (lights s)"
    from n i have "\<not> (0 \<le> distance_of env t car slp i
                 \<and> distance_of env t car slp i < int (length wps))" by simp
    moreover from assms(4) i have "distance_of env t car slp i < int (length wps)" by simp
    ultimately show "distance_of env t car slp i < 0" by simp
  qed
  with r show ?thesis by simp
next
  fix i
  assume "i < length (lights s)"
    and "get_closest_light_in_front env s car slp =
           Inr (Some (lights s ! i, query env t (slp ! i)), distance_of env t car slp i)"
    and "0 \<le> distance_of env t car slp i"
    and "\<forall>j<length (lights s). 0 \<le> distance_of env t car slp j
            \<longrightarrow> distance_of env t car slp i \<le> distance_of env t car slp j"
    and "\<forall>j<i. 0 \<le> distance_of env t car slp j
            \<longrightarrow> distance_of env t car slp i < distance_of env t car slp j"
  then show ?thesis
    by (intro disjI2 exI [of _ i] conjI) assumption+
qed

text \<open>
  Claim C3. With the path stored, when the list of lights is empty, or every light has a
  stop line and a negative distance, the selection returns no light and no stop index,
  and the distance returned is the number of stored waypoints.
\<close>

theorem get_closest_light_in_front_none_ahead:
  assumes "waypoints s = Some wps"
    and "lights s = [] \<or>
         (waypoint_tree s = Some t \<and> length (lights s) \<le> length slp \<and>
          (\<forall>i<length (lights s). distance_of env t car slp i < 0))"
  shows "get_closest_light_in_front env s car slp = Inr (None, int (length wps))"
proof (cases "lights s = []")
  case True
  with assms(1) show ?thesis by (simp add: get_closest_light_in_front_def)
next
  case False
  with assms(2) have tr: "waypoint_tree s = Some t"
    and len: "length (lights s) \<le> length slp"
    and neg: "\<forall>i<length (lights s). distance_of env t car slp i < 0"
    by simp_all
  have "lights_loop env s car slp 0 (lights s) (None, int (length wps))
          = Inr (None, int (length wps))"
    using lights_loop_from_start [OF tr len, of env car "int (length wps)"]
  proof (elim disjE exE conjE)
    fix j
    assume "j < length (lights s)" and "0 \<le> distance_of env t car slp j"
    with neg have False by (simp add: not_le [symmetric])
    then show ?thesis ..
  qed
  with assms(1) show ?thesis by (simp add: get_closest_light_in_front_def)
qed

lemmas run_defs =
  junction_def shortened_def behind_def fresh_def init_def stop_lines_def light_at_def
  line_path_def linear_env_def linear_query_def dist2_def distance_of_def
  traffic_cb_def pose_cb_def waypoints_cb_def falsy_def get_closest_waypoint_def
  get_closest_light_in_front_def Let_def upt_rec RED_def

lemma get_closest_light_in_front_nearest_ahead_at_junction:
  "waypoints junction = Some (line_path 5)
   \<and> waypoint_tree junction = Some [(0, 0), (1, 0), (2, 0), (3, 0), (4, 0)]
   \<and> length (lights junction) \<le> length (stop_line_positions (config junction))
   \<and> get_closest_light_in_front linear_env junction 1 (stop_line_positions (config junction))
       = Inr (Some (light_at 12, 2), 1)"
proof -
  have a: "waypoints junction = Some (line_path 5)"
    by (simp add: run_defs)
  have b: "waypoint_tree junction = Some [(0, 0), (1, 0), (2, 0), (3, 0), (4, 0)]"
    by (simp add: run_defs)
  have c: "length (lights junction) \<le> length (stop_line_positions (config junction))"
    by (simp add: run_defs)
  show ?thesis
    using get_closest_light_in_front_nearest_ahead [OF a b c, of linear_env 1]
    by (simp add: run_defs)
qed

text \<open>
  Claim C2 fails on the code after a second delivery of a shorter path. The stored path
  then has two waypoints while the index still covers the five of the first path. The
  only light has its stop line at index 3 and the car is at index 0, a distance of 3
  \<open>\<ge> 0\<close>, the least there is; the selection returns no light, because 3 is not
  below the 2 that \<open>diff\<close> starts from.
\<close>

theorem get_closest_light_in_front_after_shorter_path:
  "waypoints shortened = Some (line_path 2)
   \<and> waypoint_tree shortened = Some [(0, 0), (1, 0), (2, 0), (3, 0), (4, 0)]
   \<and> lights shortened = [light_at 13]
   \<and> stop_line_positions (config shortened) = [(3, 0)]
   \<and> distance_of linear_env [(0, 0), (1, 0), (2, 0), (3, 0), (4, 0)] 0 [(3, 0)] 0 = 3
   \<and> get_closest_light_in_front linear_env shortened 0 [(3, 0)] = Inr (None, 2)"
  by (simp add: run_defs)

theorem get_closest_light_in_front_none_ahead_witness:
  "waypoints behind = Some (line_path 5)
   \<and> (lights behind = [] \<or>
       (waypoint_tree behind = Some [(0, 0), (1, 0), (2, 0), (3, 0), (4, 0)]
        \<and> length (lights behind) \<le> length (stop_line_positions (config behind))
        \<and> distance_of linear_env [(0, 0), (1, 0), (2, 0), (3, 0), (4, 0)] 3
             (stop_line_positions (config behind)) 0 < 0
        \<and> distance_of linear_env [(0, 0), (1, 0), (2, 0), (3, 0), (4, 0)] 3
             (stop_line_positions (config behind)) 1 < 0))
   \<and> get_closest_light_in_front linear_env behind 3 (stop_line_positions (config behind))
       = Inr (None, 5)
   \<and> lights (deliver_all linear_env (fresh [1, 0]) [line_path 5]) = []
   \<and> get_closest_light_in_front linear_env
        (deliver_all linear_env (fresh [1, 0]) [line_path 5]) 3 [(1, 0), (0, 0)] = Inr (None, 5)"
proof -
  have a: "waypoints behind = Some (line_path 5)"
    by (simp add: run_defs)
  have b: "lights behind = [] \<or>
       (waypoint_tree behind = Some [(0, 0), (1, 0), (2, 0), (3, 0), (4, 0)]
        \<and> length (lights behind) \<le> length (stop_line_positions (config behind))
        \<and> (\<forall>i<length (lights behind).
              distance_of linear_env [(0, 0), (1, 0), (2, 0), (3, 0), (4, 0)] 3
                (stop_line_positions (config behind)) i < 0))"
    by (simp add: run_defs less_Suc_eq)
  have c: "waypoints (deliver_all linear_env (fresh [1, 0]) [line_path 5]) = Some (line_path 5)"
    by (simp add: run_defs)
  have d: "lights (deliver_all linear_env (fresh [1, 0]) [line_path 5]) = [] \<or>
       (waypoint_tree (deliver_all linear_env (fresh [1, 0]) [line_path 5]) = Some []
        \<and> length (lights (deliver_all linear_env (fresh [1, 0]) [line_path 5]))
             \<le> length [(1::real, 0::real), (0, 0)]
        \<and> (\<forall>i<length (lights (deliver_all linear_env (fresh [1, 0]) [line_path 5])).
              distance_of linear_env [] 3 [(1, 0), (0, 0)] i < 0))"
    by (simp add: run_defs)
  show ?thesis
    using get_closest_light_in_front_none_ahead [OF a b]
          get_closest_light_in_front_none_ahead [OF c d]
    by (simp add: run_defs)
qed

section \<open>Frame processing and the path callback\<close>

text \<open>
  Claim C4. In a frame (the image flag set and the image stored, as \<open>image_cb\<close>
  leaves them) with a pose and an index, once the selection has returned:
  \<open>process_traffic_lights\<close> returns the stop index of the selected light with the
  classifier's colour for the image when a light was selected and its distance is below
  \<open>WAYPOINT_LOOKAHEAD\<close>, which is 100, and \<open>(-1, UNKNOWN)\<close> otherwise.
\<close>

theorem process_traffic_lights_lookahead:
  assumes "has_image s = Some True" and "camera_image s = Some msg"
    and "pose s = Some p" and "waypoint_tree s = Some t"
    and "get_closest_light_in_front env s (query env t (position_x p, position_y p))
           (stop_line_positions (config s)) = Inr (sel, distance)"
  shows "WAYPOINT_LOOKAHEAD = 100 \<and>
         process_traffic_lights env s =
           (if sel \<noteq> None \<and> distance < WAYPOINT_LOOKAHEAD
            then Inr (snd (the sel), PyInt (get_classification env (imgmsg_to_cv2 env msg)))
            else Inr (- 1, PyInt UNKNOWN), s)"
  using assms
  by (simp add: process_traffic_lights_def get_closest_waypoint_def get_light_state_def
        MOCK_TRAFFIC_LIGHTS_def WAYPOINT_LOOKAHEAD_def split: option.splits prod.splits)

theorem process_traffic_lights_lookahead_witness:
  "has_image approach = Some True \<and> camera_image approach = Some GREEN
   \<and> pose approach = Some \<lparr>position_x = 1, position_y = 0\<rparr>
   \<and> waypoint_tree approach = Some [(0, 0), (1, 0), (2, 0), (3, 0), (4, 0)]
   \<and> get_closest_light_in_front linear_env approach
        (query linear_env [(0, 0), (1, 0), (2, 0), (3, 0), (4, 0)] (1, 0))
        (stop_line_positions (config approach)) = Inr (Some (light_at 12, 2), 1)
   \<and> process_traffic_lights linear_env approach = (Inr (2, PyInt GREEN), approach)"
proof -
  have a: "has_image approach = Some True" by (simp add: approach_def)
  have b: "camera_image approach = Some GREEN" by (simp add: approach_def)
  have c: "pose approach = Some \<lparr>position_x = 1, position_y = 0\<rparr>"
    by (simp add: approach_def pose_cb_def)
  have d: "waypoint_tree approach = Some [(0, 0), (1, 0), (2, 0), (3, 0), (4, 0)]"
    by (simp add: approach_def run_defs)
  have e: "get_closest_light_in_front linear_env approach
        (query linear_env [(0, 0), (1, 0), (2, 0), (3, 0), (4, 0)]
           (position_x \<lparr>position_x = 1, position_y = 0\<rparr>,
            position_y \<lparr>position_x = 1, position_y = 0\<rparr>))
        (stop_line_positions (config approach)) = Inr (Some (light_at 12, 2), 1)"
    by (simp add: approach_def run_defs)
  show ?thesis
    using process_traffic_lights_lookahead [OF a b c d e] a b c d e
    by (simp add: linear_env_def WAYPOINT_LOOKAHEAD_def)
qed

text \<open>
  Claim C5. Without a pose \<open>process_traffic_lights\<close> returns \<open>(-1, UNKNOWN)\<close> and
  leaves the object as it is, whatever the collaborators are and whether or not an index
  exists: no query and no selection takes part in the result.
\<close>

theorem process_traffic_lights_no_pose:
  "pose s = None \<Longrightarrow> process_traffic_lights env s = (Inr (- 1, PyInt UNKNOWN), s)"
  by (simp add: process_traffic_lights_def)

theorem process_traffic_lights_no_pose_witness:
  "pose (fresh [3]) = None \<and> waypoint_tree (fresh [3]) = None
   \<and> process_traffic_lights linear_env (fresh [3]) = (Inr (- 1, PyInt UNKNOWN), fresh [3])"
proof -
  have a: "pose (fresh [3]) = None" by (simp add: fresh_def init_def)
  have b: "waypoint_tree (fresh [3]) = None" by (simp add: fresh_def init_def)
  from process_traffic_lights_no_pose [OF a, of linear_env] a b show ?thesis by simp
qed

text \<open>
  Claim C6 fails on the code. With a pose and no path delivered yet,
  \<open>self.waypoint_tree\<close> is \<open>None\<close> and \<open>get_closest_waypoint\<close> raises
  \<open>AttributeError\<close>: \<open>process_traffic_lights\<close> raises instead of returning
  \<open>(-1, UNKNOWN)\<close>, and so does \<open>image_cb\<close>, which publishes nothing.
\<close>

theorem process_traffic_lights_without_path:
  "process_traffic_lights env (pose_cb (init cfg) p) = (Inl AttributeError, pose_cb (init cfg) p)
   \<and> image_cb env (pose_cb (init cfg) p) msg =
       (Inl AttributeError,
        (pose_cb (init cfg) p)\<lparr>has_image := Some True, camera_image := Some msg\<rparr>)"
  by (simp add: process_traffic_lights_def image_cb_def get_closest_waypoint_def pose_cb_def
        init_def)












end
